theory Spec2Isabelle
  imports Main
begin

section \<open>The course blocks endpoint: \<open>lms/djangoapps/course_api/blocks/views.py\<close>\<close>

subsection \<open>Query parameters\<close>

text \<open>
  \<open>request.GET\<close> is a Django \<open>QueryDict\<close>: a dictionary from a parameter name to the
  list of values given for it. Reading one value (\<open>get\<close>, \<open>[]\<close>) returns the last of
  the list, \<open>getlist\<close> returns all of them, and \<open>update\<close> extends the list of a key
  rather than replacing it.
\<close>

type_synonym querydict = "string \<rightharpoonup> string list"

definition qd_getlist :: "querydict \<Rightarrow> string \<Rightarrow> string list" where
  "qd_getlist qd k = (case qd k of None \<Rightarrow> [] | Some vs \<Rightarrow> vs)"

definition qd_get :: "querydict \<Rightarrow> string \<Rightarrow> string option" where
  "qd_get qd k =
     (case qd k of None \<Rightarrow> None | Some vs \<Rightarrow> if vs = [] then None else Some (last vs))"

definition qd_update :: "querydict \<Rightarrow> string \<Rightarrow> string \<Rightarrow> querydict" where
  "qd_update qd k v = qd(k \<mapsto> qd_getlist qd k @ [v])"

text \<open>
  The query dictionaries live in a store, addressed by position, so that the copy the view
  works on and the dictionary the request owns are two objects. \<open>copy\<close> allocates a new
  object with the same contents; \<open>update\<close> changes the object at the given address.
\<close>

type_synonym store = "querydict list"

definition copy :: "store \<Rightarrow> nat \<Rightarrow> nat \<times> store" where
  "copy s a = (length s, s @ [s ! a])"

definition update :: "store \<Rightarrow> nat \<Rightarrow> string \<Rightarrow> string \<Rightarrow> store" where
  "update s a k v = s[a := qd_update (s ! a) k v]"

record request =
  GET :: nat
  user :: string

subsection \<open>Blocks, transformers and results\<close>

text \<open>
  A block of the content graph, with the fields the endpoint's claims read: its type, its
  display name, the ordered ids of its children, the per-type counts stored by the count
  aggregator (\<open>None\<close> until they are computed) and the ids bundled into the block at the
  navigation depth (\<open>None\<close> for a block that bundles nothing).
\<close>

record block =
  b_type :: string
  b_display_name :: string
  b_children :: "string list"
  b_block_counts :: "(string \<times> nat) list option"
  b_descendants :: "string list option"

text \<open>
  The block structure of one request: the root id and the arena of blocks keyed by id, kept
  as an association list whose order is the order of the content graph provider.
\<close>

record block_structure =
  root :: string
  blocks :: "(string \<times> block) list"

text \<open>
  The transformers, a closed set of variants. \<open>BlocksAPITransformer\<close> carries its four
  constructor arguments: \<open>block_counts\<close>, \<open>student_view_data\<close>, \<open>depth\<close> and \<open>nav_depth\<close>
  (Python's \<open>None\<close> is \<open>None\<close>). \<open>AccessTransformer\<close> is the access control stage that
  \<open>LMS_COURSE_TRANSFORMERS\<close> holds.
\<close>

datatype transformer =
  AccessTransformer
| BlocksAPITransformer "string list" "string list" "nat option" "nat option"

text \<open>The record one block is serialized to; optional fields are \<open>None\<close> when left out.\<close>

record block_record =
  r_id :: string
  r_type :: string
  r_display_name :: string
  r_children :: "string list option"
  r_block_counts :: "(string \<times> nat) list option"

datatype response_data =
  DictData string "(string \<times> block_record) list"
| ListData "block_record list"

datatype response = Response response_data

type_synonym form_errors = "(string \<times> string list) list"

datatype exn =
  ValidationError form_errors
| Http404 string
| KeyError string
| ItemNotFoundError string
| ForbiddenError string
| BackendError string

subsection \<open>The form\<close>

text \<open>
  \<open>params.cleaned_data\<close> is a dictionary; each key the view reads is a field here, \<open>None\<close>
  when the key is absent. The values of \<open>depth\<close> and \<open>nav_depth\<close> may themselves be
  Python's \<open>None\<close>.
\<close>

record cleaned_data =
  cd_user :: "string option"
  cd_usage_key :: "string option"
  cd_requested_fields :: "string list option"
  cd_return_type :: "string option"
  cd_block_counts :: "string list option"
  cd_student_view_data :: "string list option"
  cd_depth :: "nat option option"
  cd_nav_depth :: "nat option option"

record params =
  errors :: form_errors
  cleaned_data :: cleaned_data

text \<open>A bound Django form is valid when its error dictionary is empty.\<close>

definition is_valid :: "params \<Rightarrow> bool" where
  "is_valid p = (errors p = [])"

text \<open>
  Modelled from the spec: the field declarations of \<open>BlockListGetForm\<close> (\<open>forms.py\<close> is not
  among the sources). A Django form reads each field from the bound data under the field's
  own name: a single-valued field through \<open>get\<close>, a multi-valued one through \<open>getlist\<close>.
  The spec makes \<open>requested_fields\<close>, \<open>student_view_data\<close> and \<open>block_counts\<close> multi-valued;
  the other parameters are single values.
\<close>

record form_data =
  fd_user :: "string option"
  fd_usage_key :: "string option"
  fd_requested_fields :: "string list"
  fd_student_view_data :: "string list"
  fd_block_counts :: "string list"
  fd_depth :: "string option"
  fd_nav_depth :: "string option"
  fd_return_type :: "string option"

definition bound_data :: "querydict \<Rightarrow> form_data" where
  "bound_data qd = \<lparr>
     fd_user = qd_get qd ''user'',
     fd_usage_key = qd_get qd ''usage_key'',
     fd_requested_fields = qd_getlist qd ''requested_fields'',
     fd_student_view_data = qd_getlist qd ''student_view_data'',
     fd_block_counts = qd_getlist qd ''block_counts'',
     fd_depth = qd_get qd ''depth'',
     fd_nav_depth = qd_get qd ''nav_depth'',
     fd_return_type = qd_get qd ''return_type'' \<rparr>"

subsection \<open>The collaborators of the view\<close>

text \<open>
  The view imports \<open>LMS_COURSE_TRANSFORMERS\<close>, \<open>get_course_blocks\<close>, the form and the two
  serializers from modules that are not among the sources; they are parameters of the
  model. \<open>clean\<close> is the cleaning logic of \<open>BlockListGetForm\<close>, applied to the bound field
  values and the \<open>requesting_user\<close> of \<open>initial\<close>. A collaborator that raises returns
  \<open>Inl\<close> of the exception.
\<close>

record serializer_context =
  ctx_request :: request
  ctx_block_structure :: block_structure
  ctx_requested_fields :: "string list"

record deps =
  LMS_COURSE_TRANSFORMERS :: "transformer list"
  clean :: "form_data \<Rightarrow> string \<Rightarrow> params"
  get_course_blocks :: "string \<Rightarrow> string \<Rightarrow> transformer list \<Rightarrow> exn + block_structure"
  BlockDictSerializer :: "block_structure \<Rightarrow> serializer_context \<Rightarrow> exn + response_data"
  BlockSerializer :: "block_structure \<Rightarrow> serializer_context \<Rightarrow> exn + response_data"

definition BlockListGetForm :: "deps \<Rightarrow> querydict \<Rightarrow> string \<Rightarrow> params" where
  "BlockListGetForm d data requesting_user = clean d (bound_data data) requesting_user"

text \<open>What the view asks of its collaborators, in order.\<close>

datatype call =
  GetCourseBlocks string string "transformer list"
| DictSerializerData block_structure serializer_context
| ListSerializerData block_structure serializer_context

text \<open>\<open>dict.get(key, default)\<close>.\<close>

definition dict_get :: "'a option \<Rightarrow> 'a \<Rightarrow> 'a" where
  "dict_get v dflt = (case v of None \<Rightarrow> dflt | Some x \<Rightarrow> x)"

subsection \<open>\<open>CourseBlocks.list\<close>\<close>

text \<open>
  The outcome of one run of the view: the store afterwards, the calls made, and either the
  exception raised or the response returned. The body of \<open>list\<close> is written in the three
  parts its comments name, last part first: \<open>serialize\<close> (from \<open># serialize\<close> to the
  response), \<open>transform_blocks\<close> (\<open># transform blocks\<close>) and \<open>CourseBlocks_list\<close> itself
  (\<open># request parameters\<close>). Reading \<open>cleaned_data[key]\<close> for an absent key raises
  \<open>KeyError\<close>; \<open>exception.message\<close> is the message the \<open>ItemNotFoundError\<close> carries.
\<close>

type_synonym outcome = "store \<times> call list \<times> (exn + response)"

definition serialize :: "deps \<Rightarrow> store \<Rightarrow> call list \<Rightarrow> request \<Rightarrow> cleaned_data \<Rightarrow> block_structure \<Rightarrow> outcome" where
  "serialize d s tr rq cd blks =
     (case cd_requested_fields cd of
        None \<Rightarrow> (s, tr, Inl (KeyError ''requested_fields''))
      | Some rf \<Rightarrow>
          let serializer_context =
                \<lparr>ctx_request = rq, ctx_block_structure = blks, ctx_requested_fields = rf\<rparr>
          in (case cd_return_type cd of
                None \<Rightarrow> (s, tr, Inl (KeyError ''return_type''))
              | Some rt \<Rightarrow>
                  if rt = ''dict'' then
                    (case BlockDictSerializer d blks serializer_context of
                       Inl e \<Rightarrow> (s, tr @ [DictSerializerData blks serializer_context], Inl e)
                     | Inr dat \<Rightarrow>
                         (s, tr @ [DictSerializerData blks serializer_context], Inr (Response dat)))
                  else
                    (case BlockSerializer d blks serializer_context of
                       Inl e \<Rightarrow> (s, tr @ [ListSerializerData blks serializer_context], Inl e)
                     | Inr dat \<Rightarrow>
                         (s, tr @ [ListSerializerData blks serializer_context], Inr (Response dat)))))"

definition blocks_api_transformer :: "cleaned_data \<Rightarrow> transformer" where
  "blocks_api_transformer cd =
     BlocksAPITransformer
       (dict_get (cd_block_counts cd) [])
       (dict_get (cd_student_view_data cd) [])
       (dict_get (cd_depth cd) None)
       (dict_get (cd_nav_depth cd) None)"

definition transform_blocks :: "deps \<Rightarrow> store \<Rightarrow> request \<Rightarrow> cleaned_data \<Rightarrow> outcome" where
  "transform_blocks d s rq cd =
     (case cd_user cd of
            None \<Rightarrow> (s, [], Inl (KeyError ''user''))
          | Some u \<Rightarrow>
             (case cd_usage_key cd of
                None \<Rightarrow> (s, [], Inl (KeyError ''usage_key''))
              | Some k \<Rightarrow>
                 let ts = LMS_COURSE_TRANSFORMERS d @ [blocks_api_transformer cd] in
                 (case get_course_blocks d u k ts of
                    Inl (ItemNotFoundError message) \<Rightarrow>
                      (s, [GetCourseBlocks u k ts],
                       Inl (Http404 (''Course block not found: '' @ message)))
                  | Inl e \<Rightarrow> (s, [GetCourseBlocks u k ts], Inl e)
                  | Inr blks \<Rightarrow> serialize d s [GetCourseBlocks u k ts] rq cd blks)))"

definition CourseBlocks_list :: "deps \<Rightarrow> store \<Rightarrow> request \<Rightarrow> string \<Rightarrow> outcome" where
  "CourseBlocks_list d s rq usage_key_string =
     (let (requested_params, s1) = copy s (GET rq);
          s2 = update s1 requested_params ''usage_key'' usage_key_string;
          params = BlockListGetForm d (s2 ! requested_params) (user rq)
      in if \<not> is_valid params then (s2, [], Inl (ValidationError (errors params)))
         else transform_blocks d s2 rq (cleaned_data params))"

text \<open>
  The form the view builds for a request: the bound form over the copied parameters with
  the usage key of the URL path added. A request is valid when this form is.
\<close>

definition request_form :: "deps \<Rightarrow> store \<Rightarrow> request \<Rightarrow> string \<Rightarrow> params" where
  "request_form d s rq usage_key_string =
     (let (requested_params, s1) = copy s (GET rq);
          s2 = update s1 requested_params ''usage_key'' usage_key_string
      in BlockListGetForm d (s2 ! requested_params) (user rq))"

fun is_serializer_call :: "call \<Rightarrow> bool" where
  "is_serializer_call (GetCourseBlocks u k ts) = False"
| "is_serializer_call (DictSerializerData b c) = True"
| "is_serializer_call (ListSerializerData b c) = True"

section \<open>The collaborators, from the specification\<close>

subsection \<open>The request resolver\<close>

definition digit_val :: "char \<Rightarrow> nat option" where
  "digit_val c =
     map_of [(CHR ''0'', 0), (CHR ''1'', 1), (CHR ''2'', 2), (CHR ''3'', 3), (CHR ''4'', 4),
             (CHR ''5'', 5), (CHR ''6'', 6), (CHR ''7'', 7), (CHR ''8'', 8), (CHR ''9'', 9)] c"

fun parse_digits :: "nat \<Rightarrow> string \<Rightarrow> nat option" where
  "parse_digits acc [] = Some acc"
| "parse_digits acc (c # cs) =
     (case digit_val c of None \<Rightarrow> None | Some v \<Rightarrow> parse_digits (10 * acc + v) cs)"

definition parse_nat :: "string \<Rightarrow> nat option" where
  "parse_nat v = (if v = [] then None else parse_digits 0 v)"

fun split_commas :: "string \<Rightarrow> string list" where
  "split_commas [] = [[]]"
| "split_commas (c # cs) =
     (if c = CHR '','' then [] # split_commas cs
      else (case split_commas cs of [] \<Rightarrow> [[c]] | t # ts \<Rightarrow> (c # t) # ts))"

text \<open>
  Modelled from the spec: the parsing of \<open>block_counts\<close>, \<open>student_view_data\<close> and
  \<open>requested_fields\<close> in \<open>forms.py\<close>, which is not among the sources: "each parses as a set
  of tokens from a comma-delimited or multi-valued input".
\<close>

definition tokens :: "string list \<Rightarrow> string list" where
  "tokens vs = remdups (filter (\<lambda>t. t \<noteq> []) (concat (map split_commas vs)))"

text \<open>
  Modelled from the spec: the recognized vocabulary of \<open>requested_fields\<close>; "unrecognized
  requested fields are ignored rather than rejected".
\<close>

definition recognized_fields :: "string list" where
  "recognized_fields =
     [''children'', ''graded'', ''format'', ''student_view_data'', ''student_view_multi_device'',
      ''student_view_url'', ''lms_web_url'', ''block_counts'']"

definition clean_requested_fields :: "string list \<Rightarrow> string list" where
  "clean_requested_fields vs = filter (\<lambda>t. t \<in> set recognized_fields) (tokens vs)"

text \<open>
  Modelled from the spec: the cleaning of each field of \<open>BlockListGetForm\<close>. Each returns
  the field's errors and, when there are none, its cleaned value.
  \<open>usage_key\<close> is required. \<open>depth\<close> "parses integer \<open>\<ge> 0\<close>, or the literal "all" \<open>\<rightarrow>\<close>
  unbounded. Default: 0"; unbounded is Python's \<open>None\<close>. \<open>nav_depth\<close> "parses to integer
  \<open>\<ge> 0\<close>; default 3". \<open>return_type\<close> is "one of dict|list, default dict".
\<close>

definition clean_usage_key :: "string option \<Rightarrow> form_errors \<times> string option" where
  "clean_usage_key v =
     (case v of
        None \<Rightarrow> ([(''usage_key'', [''This field is required.''])], None)
      | Some k \<Rightarrow>
          if k = [] then ([(''usage_key'', [''This field is required.''])], None)
          else ([], Some k))"

definition clean_depth :: "string option \<Rightarrow> form_errors \<times> nat option option" where
  "clean_depth v =
     (case v of
        None \<Rightarrow> ([], Some (Some 0))
      | Some x \<Rightarrow>
          if x = [] then ([], Some (Some 0))
          else if x = ''all'' then ([], Some None)
          else (case parse_nat x of
                  Some n \<Rightarrow> ([], Some (Some n))
                | None \<Rightarrow> ([(''depth'', [''Enter a whole number or all.''])], None)))"

definition clean_nav_depth :: "string option \<Rightarrow> form_errors \<times> nat option option" where
  "clean_nav_depth v =
     (case v of
        None \<Rightarrow> ([], Some (Some 3))
      | Some x \<Rightarrow>
          if x = [] then ([], Some (Some 3))
          else (case parse_nat x of
                  Some n \<Rightarrow> ([], Some (Some n))
                | None \<Rightarrow> ([(''nav_depth'', [''Enter a whole number.''])], None)))"

definition clean_return_type :: "string option \<Rightarrow> form_errors \<times> string option" where
  "clean_return_type v =
     (case v of
        None \<Rightarrow> ([], Some ''dict'')
      | Some x \<Rightarrow>
          if x = [] then ([], Some ''dict'')
          else if x = ''dict'' \<or> x = ''list'' then ([], Some x)
          else ([(''return_type'', [''Select a valid choice.''])], None))"

text \<open>
  Modelled from the spec: \<open>BlockListGetForm\<close>'s cleaning as a whole (the request resolver):
  "produce a validated Pipeline Configuration or fail with a structured validation error
  enumerating every invalid/missing field (not just the first)". The errors of all fields
  are collected; a field with an error has no entry in \<open>cleaned_data\<close>. The user of the
  configuration is the requesting identity.
\<close>

definition clean_spec :: "form_data \<Rightarrow> string \<Rightarrow> params" where
  "clean_spec fd requesting_user =
     (let (e_key, key) = clean_usage_key (fd_usage_key fd);
          (e_depth, depth) = clean_depth (fd_depth fd);
          (e_nav, nav_depth) = clean_nav_depth (fd_nav_depth fd);
          (e_rt, return_type) = clean_return_type (fd_return_type fd)
      in \<lparr> errors = e_key @ e_depth @ e_nav @ e_rt,
           cleaned_data = \<lparr>
             cd_user = Some requesting_user,
             cd_usage_key = key,
             cd_requested_fields = Some (clean_requested_fields (fd_requested_fields fd)),
             cd_return_type = return_type,
             cd_block_counts = Some (tokens (fd_block_counts fd)),
             cd_student_view_data = Some (tokens (fd_student_view_data fd)),
             cd_depth = depth,
             cd_nav_depth = nav_depth \<rparr> \<rparr>)"

subsection \<open>The block graph\<close>

definition keys :: "block_structure \<Rightarrow> string list" where
  "keys g = map fst (blocks g)"

definition children_of :: "(string \<times> block) list \<Rightarrow> string \<Rightarrow> string list" where
  "children_of bs i = (case map_of bs i of None \<Rightarrow> [] | Some b \<Rightarrow> b_children b)"

text \<open>
  Modelled from the spec: the levels below the root that the depth limits count ("blocks
  more than \<open>depth\<close> levels below \<open>root\<close>"); the traversal is part of the transformers,
  which are not among the sources. \<open>ids_within bs r d\<close> lists the ids that some path of at
  most \<open>d\<close> child links reaches from \<open>r\<close>.
\<close>

fun ids_within :: "(string \<times> block) list \<Rightarrow> string \<Rightarrow> nat \<Rightarrow> string list" where
  "ids_within bs r 0 = [r]"
| "ids_within bs r (Suc d) =
     ids_within bs r d @ concat (map (children_of bs) (ids_within bs r d))"

text \<open>
  Modelled from the spec: pruning ("removed from \<open>blocks\<close> and from every parent's
  \<open>children\<close> list"). The blocks whose id fails \<open>keep\<close> go, and so does every mention of
  them in a children list.
\<close>

definition prune :: "(string \<Rightarrow> bool) \<Rightarrow> block_structure \<Rightarrow> block_structure" where
  "prune keep g =
     g\<lparr>blocks :=
         map (\<lambda>(i, b). (i, b\<lparr>b_children := filter keep (b_children b)\<rparr>))
           (filter (\<lambda>(i, b). keep i) (blocks g))\<rparr>"

text \<open>
  Modelled from the spec: "\<open>blocks\<close>: ... containing exactly the set of blocks reachable
  from \<open>root\<close>", with the invariant that "every id appearing in any \<open>children\<close> list exists
  as a key in \<open>blocks\<close>". What stays is what the root reaches and is a block of the arena; an
  id with no block goes from the children lists too. No path without a repeated block is
  longer than the number of blocks.
\<close>

definition restrict_reachable :: "block_structure \<Rightarrow> block_structure" where
  "restrict_reachable g =
     prune (\<lambda>i. i \<in> set (ids_within (blocks g) (root g) (length (blocks g))) \<and>
                map_of (blocks g) i \<noteq> None) g"

subsection \<open>The transformers\<close>

text \<open>
  Modelled from the spec: the Access Transformer, which is not among the sources. "Blocks
  failing the check are pruned"; "pruning is transitive: if a block is removed, unreachable
  descendants are removed too"; "a missing root after Access Transformer pruning (root
  itself inaccessible) is a distinct "forbidden" outcome". \<open>can_access\<close> is the access-check
  provider.
\<close>

definition access_transform ::
  "(string \<Rightarrow> string \<Rightarrow> bool) \<Rightarrow> string \<Rightarrow> block_structure \<Rightarrow> exn + block_structure" where
  "access_transform can_access u g =
     (if \<not> can_access u (root g) then Inl (ForbiddenError (root g))
      else Inr (restrict_reachable (prune (can_access u) g)))"

text \<open>
  Modelled from the spec: the Count Aggregator, which is not among the sources. "A block's
  count for type T = (1 if own type == T else 0) + sum of children's counts for T",
  computed bottom-up by a walk from the block. The walk is bounded by \<open>n\<close> levels, so that on
  a graph with a cycle it gives up (\<open>None\<close>) instead of looping; a child id with no block
  counts nothing.
\<close>

definition own_count :: "block \<Rightarrow> string \<Rightarrow> nat" where
  "own_count b T = (if b_type b = T then 1 else 0)"

fun sum_counts :: "(string \<Rightarrow> nat option) \<Rightarrow> string list \<Rightarrow> nat option" where
  "sum_counts f [] = Some 0"
| "sum_counts f (c # cs) =
     (case f c of
        None \<Rightarrow> None
      | Some n \<Rightarrow> (case sum_counts f cs of None \<Rightarrow> None | Some m \<Rightarrow> Some (n + m)))"

fun count_rec :: "nat \<Rightarrow> (string \<times> block) list \<Rightarrow> string \<Rightarrow> string \<Rightarrow> nat option" where
  "count_rec 0 bs T i = None"
| "count_rec (Suc n) bs T i =
     (case map_of bs i of
        None \<Rightarrow> Some 0
      | Some b \<Rightarrow>
          (case sum_counts (count_rec n bs T) (b_children b) of
             None \<Rightarrow> None
           | Some m \<Rightarrow> Some (own_count b T + m)))"

fun counts_for ::
  "nat \<Rightarrow> (string \<times> block) list \<Rightarrow> string list \<Rightarrow> string \<Rightarrow> (string \<times> nat) list option" where
  "counts_for n bs [] i = Some []"
| "counts_for n bs (T # Ts) i =
     (case count_rec n bs T i of
        None \<Rightarrow> None
      | Some v \<Rightarrow> (case counts_for n bs Ts i of None \<Rightarrow> None | Some r \<Rightarrow> Some ((T, v) # r)))"

text \<open>
  Modelled from the spec: the counts are "stored in \<open>fields['block_counts']\<close> as a mapping
  from type to integer, attached to every block".
\<close>

fun annotate ::
  "nat \<Rightarrow> (string \<times> block) list \<Rightarrow> string list \<Rightarrow> (string \<times> block) list \<Rightarrow>
   (string \<times> block) list option" where
  "annotate n all types [] = Some []"
| "annotate n all types ((i, b) # rest) =
     (case counts_for n all types i of
        None \<Rightarrow> None
      | Some cs \<Rightarrow>
          (case annotate n all types rest of
             None \<Rightarrow> None
           | Some r \<Rightarrow> Some ((i, b\<lparr>b_block_counts := Some cs\<rparr>) # r)))"

definition count_transform :: "string list \<Rightarrow> block_structure \<Rightarrow> exn + block_structure" where
  "count_transform types g =
     (case annotate (Suc (length (blocks g))) (blocks g) types (blocks g) of
        None \<Rightarrow> Inl (BackendError ''cycle in the block graph'')
      | Some bs \<Rightarrow> Inr (g\<lparr>blocks := bs\<rparr>))"


text \<open>
  Modelled from the spec: the structural depth truncation of the Depth/Navigation
  Transformer, which is not among the sources. "Blocks more than \<open>depth\<close> levels below
  \<open>root\<close> are pruned entirely (their ids removed from parents' \<open>children\<close> too).
  \<open>depth = unbounded\<close> disables this truncation."
\<close>

definition depth_transform :: "nat option \<Rightarrow> block_structure \<Rightarrow> block_structure" where
  "depth_transform depth g =
     (case depth of
        None \<Rightarrow> g
      | Some d \<Rightarrow> prune (\<lambda>i. i \<in> set (ids_within (blocks g) (root g) d)) g)"

text \<open>
  Modelled from the spec: the navigational collapsing of the Depth/Navigation Transformer,
  which is not among the sources. \<open>nav_depth\<close> "limits how many levels are treated as
  individually navigable before deeper descendants are collapsed into the node at that
  level"; the docstring of the view has it as "how far deep to traverse into the course
  hierarchy before bundling all the descendants". A block at exactly \<open>nav_depth\<close> levels
  below the root "retains its full \<open>children\<close> list" and is given the ids of all the blocks
  beneath it. No block leaves the structure, since "\<open>depth="all"\<close> returns every
  access-permitted block reachable from root" (with the default \<open>nav_depth\<close> too) and every
  id of a children list is to stay a key of \<open>blocks\<close>; the sentence that deeper descendants
  "are not returned as separate entries" cannot hold with these two and gives way. Python's
  \<open>None\<close> for \<open>nav_depth\<close> bundles nothing.
\<close>

definition at_level :: "(string \<times> block) list \<Rightarrow> string \<Rightarrow> nat \<Rightarrow> string \<Rightarrow> bool" where
  "at_level bs r n i =
     (i \<in> set (ids_within bs r n) \<and> (n = 0 \<or> i \<notin> set (ids_within bs r (n - 1))))"

definition descendants :: "(string \<times> block) list \<Rightarrow> string \<Rightarrow> string list" where
  "descendants bs i =
     remdups (concat (map (\<lambda>c. ids_within bs c (length bs)) (children_of bs i)))"

definition nav_transform :: "nat option \<Rightarrow> block_structure \<Rightarrow> block_structure" where
  "nav_transform nav_depth g =
     (case nav_depth of
        None \<Rightarrow> g
      | Some n \<Rightarrow>
          g\<lparr>blocks :=
              map (\<lambda>(i, b).
                     (i, if at_level (blocks g) (root g) n i
                         then b\<lparr>b_descendants := Some (descendants (blocks g) i)\<rparr>
                         else b))
                (blocks g)\<rparr>)"

text \<open>
  Modelled from the spec: \<open>BlocksAPITransformer\<close> (\<open>transformers/blocks_api.py\<close> is not among
  the sources). It is the last transformer, built from \<open>block_counts\<close>, \<open>student_view_data\<close>,
  \<open>depth\<close> and \<open>nav_depth\<close>. The counts "reflect the access-filtered tree, not the
  depth-truncated one", so they are computed on the structure as it arrives and stay on the
  blocks that the truncation keeps; "structural depth wins", so it is applied before the
  navigational collapsing. The view data of \<open>student_view_data\<close> is a field no property here
  reads and is left out.
\<close>

definition blocks_api_transform ::
  "string list \<Rightarrow> string list \<Rightarrow> nat option \<Rightarrow> nat option \<Rightarrow> block_structure \<Rightarrow>
   exn + block_structure" where
  "blocks_api_transform block_counts student_view_data depth nav_depth g =
     (case count_transform block_counts g of
        Inl e \<Rightarrow> Inl e
      | Inr gc \<Rightarrow> Inr (nav_transform nav_depth (depth_transform depth gc)))"

fun transform ::
  "(string \<Rightarrow> string \<Rightarrow> bool) \<Rightarrow> string \<Rightarrow> transformer \<Rightarrow> block_structure \<Rightarrow>
   exn + block_structure" where
  "transform can_access u AccessTransformer g = access_transform can_access u g"
| "transform can_access u (BlocksAPITransformer bc svd depth nav_depth) g =
     blocks_api_transform bc svd depth nav_depth g"

text \<open>
  Modelled from the spec: the Transformer Pipeline: "each stage's output is the next
  stage's input", and a transformer that fails "fails the whole pipeline".
\<close>

fun run_pipeline ::
  "(string \<Rightarrow> string \<Rightarrow> bool) \<Rightarrow> string \<Rightarrow> transformer list \<Rightarrow> block_structure \<Rightarrow>
   exn + block_structure" where
  "run_pipeline can_access u [] g = Inr g"
| "run_pipeline can_access u (t # ts) g =
     (case transform can_access u t g of
        Inl e \<Rightarrow> Inl e
      | Inr g' \<Rightarrow> run_pipeline can_access u ts g')"

text \<open>
  Modelled from the spec: \<open>get_course_blocks\<close> (\<open>lms.djangoapps.course_blocks.api\<close> is not
  among the sources). \<open>content\<close> is the content-graph provider's arena of blocks. A root id
  with no block is the "not found" condition; otherwise the initial graph is what the root
  reaches, and the pipeline runs over it.
\<close>

definition get_course_blocks_spec ::
  "(string \<times> block) list \<Rightarrow> (string \<Rightarrow> string \<Rightarrow> bool) \<Rightarrow> string \<Rightarrow> string \<Rightarrow>
   transformer list \<Rightarrow> exn + block_structure" where
  "get_course_blocks_spec content can_access u usage_key transformers =
     (case map_of content usage_key of
        None \<Rightarrow> Inl (ItemNotFoundError usage_key)
      | Some b \<Rightarrow>
          run_pipeline can_access u transformers
            (restrict_reachable \<lparr>root = usage_key, blocks = content\<rparr>))"

subsection \<open>The serializers\<close>

text \<open>
  Modelled from the spec: the traversal of the list serializer (\<open>serializers.py\<close> is not
  among the sources): "a deterministic traversal order (pre-order, children in authored
  order) flattening the DAG into a list; a block reachable via multiple parents appears
  exactly once, at its first-visited position". An id with no block is passed over.
\<close>

function preorder :: "(string \<times> block) list \<Rightarrow> string list \<Rightarrow> string list \<Rightarrow> string list" where
  "preorder bs visited [] = []"
| "preorder bs visited (i # stack) =
     (if i \<in> set visited \<or> map_of bs i = None then preorder bs visited stack
      else i # preorder bs (i # visited) (children_of bs i @ stack))"
  by pat_completeness auto
termination
proof (relation "measures [\<lambda>(bs, visited, stack). card (fst ` set bs - set visited),
                            \<lambda>(bs, visited, stack). length stack]", goal_cases)
  case 1
  then show ?case by simp
next
  case (2 bs visited i stack)
  then show ?case by simp
next
  case (3 bs visited i stack)
  then have "i \<in> fst ` set bs - set visited"
    by (auto simp: map_of_eq_None_iff)
  then have "card (fst ` set bs - set (i # visited)) < card (fst ` set bs - set visited)"
    by (intro psubset_card_mono) auto
  then show ?case by simp
qed

text \<open>
  Modelled from the spec: the record of one block: "\<open>id\<close>, \<open>type\<close>, \<open>display_name\<close>, plus
  every field in \<open>fields\<close> that intersects \<open>requested_fields\<close>", where \<open>block_counts\<close> is
  selected by the request's own \<open>block_counts\<close> parameter: it is given when the aggregator
  stored a count for some type.
\<close>

definition to_record :: "string list \<Rightarrow> string \<Rightarrow> block \<Rightarrow> block_record" where
  "to_record requested_fields i b =
     \<lparr> r_id = i, r_type = b_type b, r_display_name = b_display_name b,
       r_children = (if ''children'' \<in> set requested_fields then Some (b_children b) else None),
       r_block_counts = (case b_block_counts b of
                           None \<Rightarrow> None
                         | Some cs \<Rightarrow> if cs = [] then None else Some cs) \<rparr>"

text \<open>
  Modelled from the spec: \<open>BlockDictSerializer\<close>: "emits \<open>{root: <root id>, blocks: {id \<rightarrow>
  record}}\<close>; \<open>blocks\<close> contains every surviving block".
\<close>

definition BlockDictSerializer_spec ::
  "block_structure \<Rightarrow> serializer_context \<Rightarrow> exn + response_data" where
  "BlockDictSerializer_spec g ctx =
     Inr (DictData (root g)
            (map (\<lambda>(i, b). (i, to_record (ctx_requested_fields ctx) i b)) (blocks g)))"

text \<open>
  Modelled from the spec: \<open>BlockSerializer\<close> with \<open>many=True\<close>: "emits an ordered sequence
  of records starting from \<open>root\<close>'s position".
\<close>

definition BlockSerializer_spec ::
  "block_structure \<Rightarrow> serializer_context \<Rightarrow> exn + response_data" where
  "BlockSerializer_spec g ctx =
     Inr (ListData
            (map (\<lambda>i. to_record (ctx_requested_fields ctx) i (the (map_of (blocks g) i)))
               (preorder (blocks g) [] [root g])))"

text \<open>
  The collaborators as the specification describes them, over a content arena and an
  access check.
\<close>

definition spec_deps :: "(string \<times> block) list \<Rightarrow> (string \<Rightarrow> string \<Rightarrow> bool) \<Rightarrow> deps" where
  "spec_deps content can_access =
     \<lparr> LMS_COURSE_TRANSFORMERS = [AccessTransformer],
       clean = clean_spec,
       get_course_blocks = get_course_blocks_spec content can_access,
       BlockDictSerializer = BlockDictSerializer_spec,
       BlockSerializer = BlockSerializer_spec \<rparr>"

subsection \<open>A course\<close>

text \<open>
  The course of the specification's example: \<open>course \<rightarrow> chapter1 \<rightarrow> [seq1 (video), seq2
  (problem)]\<close>, open to every user, and a request for it.
\<close>

definition blk :: "string \<Rightarrow> string list \<Rightarrow> block" where
  "blk t cs = \<lparr> b_type = t, b_display_name = t, b_children = cs, b_block_counts = None,
                b_descendants = None \<rparr>"

definition course_content :: "(string \<times> block) list" where
  "course_content =
     [(''course-block'', blk ''course'' [''chapter1'']),
      (''chapter1'', blk ''chapter'' [''seq1'', ''seq2'']),
      (''seq1'', blk ''video'' []),
      (''seq2'', blk ''problem'' [])]"

definition open_access :: "string \<Rightarrow> string \<Rightarrow> bool" where
  "open_access u i = True"

definition course_deps :: deps where
  "course_deps = spec_deps course_content open_access"

definition anjali :: request where
  "anjali = \<lparr> GET = 0, user = ''anjali'' \<rparr>"

subsection \<open>The records of a response and the children lists of a structure\<close>





text \<open>A course of five levels, one block to a level.\<close>

definition deep_course :: "(string \<times> block) list" where
  "deep_course =
     [(''c'', blk ''course'' [''ch'']), (''ch'', blk ''chapter'' [''sq'']),
      (''sq'', blk ''sequential'' [''v'']), (''v'', blk ''vertical'' [''h'']),
      (''h'', blk ''html'' [])]"

section \<open>Properties of the view\<close>

subsection \<open>The steps of \<open>CourseBlocks.list\<close>\<close>

lemma request_form_eq:
  "request_form d s rq k = BlockListGetForm d (qd_update (s ! GET rq) ''usage_key'' k) (user rq)"
  by (simp add: request_form_def copy_def update_def)

lemma list_invalid:
  "\<not> is_valid (request_form d s rq k) \<Longrightarrow>
   snd (CourseBlocks_list d s rq k) = ([], Inl (ValidationError (errors (request_form d s rq k))))"
  by (simp add: CourseBlocks_list_def request_form_def copy_def update_def Let_def)

lemma list_valid:
  "is_valid (request_form d s rq k) \<Longrightarrow>
   CourseBlocks_list d s rq k =
     transform_blocks d ((s @ [s ! GET rq])[length s := qd_update (s ! GET rq) ''usage_key'' k]) rq
       (cleaned_data (request_form d s rq k))"
  by (simp add: CourseBlocks_list_def request_form_def copy_def update_def Let_def)

lemma serialize_trace:
  "fst (snd (serialize d s tr rq cd b)) = tr \<or>
   (\<exists>c. is_serializer_call c \<and> fst (snd (serialize d s tr rq cd b)) = tr @ [c])"
  by (auto simp: serialize_def Let_def split: option.splits sum.splits)

lemma serialize_store: "fst (serialize d s tr rq cd b) = s"
  by (auto simp: serialize_def Let_def split: option.splits sum.splits)


lemma transform_blocks_store: "fst (transform_blocks d s rq cd) = s"
  by (auto simp: transform_blocks_def Let_def serialize_store
           split: option.splits sum.splits exn.splits)


lemma transform_blocks_trace:
  assumes "cd_user cd = Some u" and "cd_usage_key cd = Some key"
  shows "\<exists>rest. fst (snd (transform_blocks d s rq cd)) =
           GetCourseBlocks u key (LMS_COURSE_TRANSFORMERS d @ [blocks_api_transformer cd]) # rest
         \<and> list_all is_serializer_call rest"
proof (cases "get_course_blocks d u key (LMS_COURSE_TRANSFORMERS d @ [blocks_api_transformer cd])")
  case (Inl e)
  with assms show ?thesis
    by (cases e) (simp_all add: transform_blocks_def)
next
  case (Inr b)
  let ?c = "GetCourseBlocks u key (LMS_COURSE_TRANSFORMERS d @ [blocks_api_transformer cd])"
  from serialize_trace[of d s "[?c]" rq cd b] Inr assms show ?thesis
    by (auto simp: transform_blocks_def)
qed

lemma transform_blocks_failed:
  assumes "get_course_blocks d u key ts = Inl e"
    and "GetCourseBlocks u key ts \<in> set (fst (snd (transform_blocks d s rq cd)))"
  shows "fst (snd (transform_blocks d s rq cd)) = [GetCourseBlocks u key ts] \<and>
         (\<exists>e'. snd (snd (transform_blocks d s rq cd)) = Inl e')"
proof (cases "cd_user cd")
  case None
  with assms(2) show ?thesis by (simp add: transform_blocks_def)
next
  case (Some u')
  note U = this
  show ?thesis
  proof (cases "cd_usage_key cd")
    case None
    with U assms(2) show ?thesis by (simp add: transform_blocks_def)
  next
    case (Some k')
    let ?ts = "LMS_COURSE_TRANSFORMERS d @ [blocks_api_transformer cd]"
    from transform_blocks_trace[OF U Some, of d s rq] obtain rest where
      tr: "fst (snd (transform_blocks d s rq cd)) = GetCourseBlocks u' k' ?ts # rest"
      and ser: "list_all is_serializer_call rest" by blast
    from assms(2) tr ser have eq: "u = u'" "key = k'" "ts = ?ts"
      by (auto simp: list_all_iff)
    with assms(1) have "get_course_blocks d u' k' ?ts = Inl e" by simp
    with U Some eq show ?thesis
      by (cases e) (simp_all add: transform_blocks_def)
  qed
qed

lemma list_trace:
  assumes "is_valid (request_form d s rq k)"
    and "cd_user (cleaned_data (request_form d s rq k)) = Some u"
    and "cd_usage_key (cleaned_data (request_form d s rq k)) = Some key"
  shows "\<exists>rest. fst (snd (CourseBlocks_list d s rq k)) =
           GetCourseBlocks u key
             (LMS_COURSE_TRANSFORMERS d @
              [blocks_api_transformer (cleaned_data (request_form d s rq k))]) # rest
         \<and> list_all is_serializer_call rest"
  using list_valid[OF assms(1)] transform_blocks_trace[OF assms(2,3)]
  by simp

subsection \<open>The query parameters\<close>

lemma qd_get_update_same: "qd_get (qd_update qd k v) k = Some v"
  by (simp add: qd_get_def qd_update_def)

lemma qd_get_update_other: "p \<noteq> k \<Longrightarrow> qd_get (qd_update qd k v) p = qd_get qd p"
  by (simp add: qd_get_def qd_update_def)

lemma qd_getlist_update_other: "p \<noteq> k \<Longrightarrow> qd_getlist (qd_update qd k v) p = qd_getlist qd p"
  by (simp add: qd_getlist_def qd_update_def)

lemma bound_data_update:
  "bound_data (qd_update qd ''usage_key'' v) = (bound_data qd)\<lparr>fd_usage_key := Some v\<rparr>"
  by (simp add: bound_data_def qd_get_update_same qd_get_update_other qd_getlist_update_other)


subsection \<open>The request for the course, evaluated\<close>

lemma bound_data_empty:
  "bound_data (qd_update Map.empty ''usage_key'' k) =
     \<lparr> fd_user = None, fd_usage_key = Some k, fd_requested_fields = [],
       fd_student_view_data = [], fd_block_counts = [], fd_depth = None,
       fd_nav_depth = None, fd_return_type = None \<rparr>"
  by (simp add: bound_data_def qd_update_def qd_get_def qd_getlist_def)

lemma tokens_Nil: "tokens [] = []"
  by (simp add: tokens_def)

lemma clean_requested_fields_Nil: "clean_requested_fields [] = []"
  by (simp add: clean_requested_fields_def tokens_Nil)

lemma request_form_plain:
  "k \<noteq> [] \<Longrightarrow>
   request_form (spec_deps content acc) [Map.empty] anjali k =
     \<lparr> errors = [],
       cleaned_data = \<lparr> cd_user = Some ''anjali'', cd_usage_key = Some k,
         cd_requested_fields = Some [], cd_return_type = Some ''dict'',
         cd_block_counts = Some [], cd_student_view_data = Some [],
         cd_depth = Some (Some 0), cd_nav_depth = Some (Some 3) \<rparr> \<rparr>"
  by (simp add: request_form_eq BlockListGetForm_def spec_deps_def anjali_def bound_data_empty
        clean_spec_def clean_usage_key_def clean_depth_def clean_nav_depth_def
        clean_return_type_def tokens_Nil clean_requested_fields_Nil)

lemma spec_deps_sel:
  "LMS_COURSE_TRANSFORMERS (spec_deps content acc) = [AccessTransformer]"
  "clean (spec_deps content acc) = clean_spec"
  "get_course_blocks (spec_deps content acc) = get_course_blocks_spec content acc"
  "BlockDictSerializer (spec_deps content acc) = BlockDictSerializer_spec"
  "BlockSerializer (spec_deps content acc) = BlockSerializer_spec"
  by (simp_all add: spec_deps_def)

lemma plain_transformer:
  "k \<noteq> [] \<Longrightarrow>
   blocks_api_transformer (cleaned_data (request_form (spec_deps content acc) [Map.empty] anjali k)) =
     BlocksAPITransformer [] [] (Some 0) (Some 3)"
  by (simp add: request_form_plain blocks_api_transformer_def dict_get_def)

lemma plain_valid:
  "k \<noteq> [] \<Longrightarrow> is_valid (request_form (spec_deps content acc) [Map.empty] anjali k)"
  by (simp add: request_form_plain is_valid_def)

lemma no_such_block:
  "get_course_blocks_spec course_content acc u ''no-such-block'' ts =
     Inl (ItemNotFoundError ''no-such-block'')"
  by (simp add: get_course_blocks_spec_def course_content_def)

lemma root_prune: "root (prune keep g) = root g"
  by (simp add: prune_def)

lemma closed_course:
  "get_course_blocks_spec course_content (\<lambda>u i. False) u ''course-block'' (AccessTransformer # ts) =
     Inl (ForbiddenError ''course-block'')"
  by (simp add: get_course_blocks_spec_def course_content_def access_transform_def
        restrict_reachable_def root_prune)

subsection \<open>The claims about the view\<close>

text \<open>
  C1. For a valid request whose cleaned data holds the user and the usage key, the view's
  first call is \<open>get_course_blocks\<close> with the transformers \<open>LMS_COURSE_TRANSFORMERS\<close>
  followed, as the last element, by the \<open>BlocksAPITransformer\<close> built from the cleaned
  \<open>block_counts\<close>, \<open>student_view_data\<close>, \<open>depth\<close> and \<open>nav_depth\<close>; every later call is a
  serializer's, so no other list of transformers is ever passed.
\<close>

theorem pipeline_is_lms_chain_then_blocks_api:
  assumes "is_valid (request_form d s rq k)"
    and "cd_user (cleaned_data (request_form d s rq k)) = Some u"
    and "cd_usage_key (cleaned_data (request_form d s rq k)) = Some key"
  shows "\<exists>rest. fst (snd (CourseBlocks_list d s rq k)) =
           GetCourseBlocks u key
             (LMS_COURSE_TRANSFORMERS d @
              [BlocksAPITransformer
                 (dict_get (cd_block_counts (cleaned_data (request_form d s rq k))) [])
                 (dict_get (cd_student_view_data (cleaned_data (request_form d s rq k))) [])
                 (dict_get (cd_depth (cleaned_data (request_form d s rq k))) None)
                 (dict_get (cd_nav_depth (cleaned_data (request_form d s rq k))) None)]) # rest
         \<and> list_all is_serializer_call rest"
  using list_trace[OF assms] by (simp add: blocks_api_transformer_def)

theorem pipeline_is_lms_chain_then_blocks_api_witness:
  "\<exists>rest. fst (snd (CourseBlocks_list course_deps [Map.empty] anjali ''course-block'')) =
           GetCourseBlocks ''anjali'' ''course-block''
             ([AccessTransformer] @ [BlocksAPITransformer [] [] (Some 0) (Some 3)]) # rest
         \<and> list_all is_serializer_call rest"
  using pipeline_is_lms_chain_then_blocks_api[of course_deps "[Map.empty]" anjali
          "''course-block''" "''anjali''" "''course-block''"]
  unfolding course_deps_def
  by (simp add: request_form_plain is_valid_def dict_get_def spec_deps_sel)

text \<open>
  C2. When the form of a request is not valid, the view raises one \<open>ValidationError\<close>
  carrying the form's whole error dictionary, and it has called neither
  \<open>get_course_blocks\<close> (which runs the transformers) nor a serializer.
\<close>

theorem invalid_request_raises_validation_error:
  assumes "\<not> is_valid (request_form d s rq k)"
  shows "snd (CourseBlocks_list d s rq k) =
           ([], Inl (ValidationError (errors (request_form d s rq k))))"
  using assms by (rule list_invalid)

lemma bad_depths_form:
  "request_form (spec_deps content acc)
     [[''depth'' \<mapsto> [''deep''], ''nav_depth'' \<mapsto> [''-1'']]] anjali ''course-block'' =
     \<lparr> errors = [(''depth'', [''Enter a whole number or all.'']),
                  (''nav_depth'', [''Enter a whole number.''])],
       cleaned_data = \<lparr> cd_user = Some ''anjali'', cd_usage_key = Some ''course-block'',
         cd_requested_fields = Some [], cd_return_type = Some ''dict'',
         cd_block_counts = Some [], cd_student_view_data = Some [],
         cd_depth = None, cd_nav_depth = None \<rparr> \<rparr>"
  by (simp add: request_form_eq BlockListGetForm_def spec_deps_sel anjali_def bound_data_def
        qd_update_def qd_get_def qd_getlist_def
        clean_spec_def clean_usage_key_def clean_depth_def clean_nav_depth_def
        clean_return_type_def tokens_Nil clean_requested_fields_Nil parse_nat_def digit_val_def)

theorem invalid_request_raises_validation_error_witness:
  "snd (CourseBlocks_list course_deps
          [[''depth'' \<mapsto> [''deep''], ''nav_depth'' \<mapsto> [''-1'']]] anjali ''course-block'') =
     ([], Inl (ValidationError [(''depth'', [''Enter a whole number or all.'']),
                                (''nav_depth'', [''Enter a whole number.''])]))"
  using invalid_request_raises_validation_error[of course_deps
          "[[''depth'' \<mapsto> [''deep''], ''nav_depth'' \<mapsto> [''-1'']]]" anjali "''course-block''"]
  unfolding course_deps_def
  by (simp add: bad_depths_form is_valid_def)

text \<open>
  C3. When the form is valid and \<open>get_course_blocks\<close> raises \<open>ItemNotFoundError\<close> for the
  cleaned user and usage key (the root id resolves to no block), the view raises \<open>Http404\<close>
  with the exception's message. That outcome is no \<open>ValidationError\<close> and no response,
  and no serializer has been called.
\<close>

theorem missing_root_is_not_found:
  assumes "is_valid (request_form d s rq k)"
    and "cd_user (cleaned_data (request_form d s rq k)) = Some u"
    and "cd_usage_key (cleaned_data (request_form d s rq k)) = Some key"
    and "get_course_blocks d u key
           (LMS_COURSE_TRANSFORMERS d @
            [blocks_api_transformer (cleaned_data (request_form d s rq k))]) =
         Inl (ItemNotFoundError m)"
  shows "snd (CourseBlocks_list d s rq k) =
           ([GetCourseBlocks u key
               (LMS_COURSE_TRANSFORMERS d @
                [blocks_api_transformer (cleaned_data (request_form d s rq k))])],
            Inl (Http404 (''Course block not found: '' @ m)))
       \<and> (\<forall>errs. snd (snd (CourseBlocks_list d s rq k)) \<noteq> Inl (ValidationError errs))
       \<and> (\<forall>r. snd (snd (CourseBlocks_list d s rq k)) \<noteq> Inr r)"
  using assms(2,3,4) list_valid[OF assms(1)]
  by (simp add: transform_blocks_def)

theorem missing_root_is_not_found_witness:
  "snd (CourseBlocks_list course_deps [Map.empty] anjali ''no-such-block'') =
     ([GetCourseBlocks ''anjali'' ''no-such-block''
         [AccessTransformer, BlocksAPITransformer [] [] (Some 0) (Some 3)]],
      Inl (Http404 ''Course block not found: no-such-block''))"
proof -
  let ?d = "spec_deps course_content open_access"
  let ?f = "request_form ?d [Map.empty] anjali ''no-such-block''"
  have v: "is_valid ?f" by (simp add: plain_valid)
  have u: "cd_user (cleaned_data ?f) = Some ''anjali''" by (simp add: request_form_plain)
  have k: "cd_usage_key (cleaned_data ?f) = Some ''no-such-block''"
    by (simp add: request_form_plain)
  have g: "get_course_blocks ?d ''anjali'' ''no-such-block''
             (LMS_COURSE_TRANSFORMERS ?d @ [blocks_api_transformer (cleaned_data ?f)]) =
           Inl (ItemNotFoundError ''no-such-block'')"
    by (simp add: spec_deps_sel no_such_block)
  from missing_root_is_not_found[OF v u k g] show ?thesis
    by (simp add: course_deps_def plain_transformer spec_deps_sel)
qed

text \<open>
  C4. Whenever the view has called \<open>get_course_blocks\<close> and that call raised (block
  retrieval or a transformer inside it failed), the call is the only one the view made, so
  no serializer was invoked, and the view ends in an exception, not a response.
\<close>

theorem failed_retrieval_never_serializes:
  assumes "get_course_blocks d u key ts = Inl e"
    and "GetCourseBlocks u key ts \<in> set (fst (snd (CourseBlocks_list d s rq k)))"
  shows "fst (snd (CourseBlocks_list d s rq k)) = [GetCourseBlocks u key ts] \<and>
         (\<exists>e'. snd (snd (CourseBlocks_list d s rq k)) = Inl e')"
proof (cases "is_valid (request_form d s rq k)")
  case False
  from list_invalid[OF this] assms(2) show ?thesis by simp
next
  case True
  from list_valid[OF this] assms transform_blocks_failed show ?thesis by simp
qed

theorem failed_retrieval_never_serializes_witness:
  "fst (snd (CourseBlocks_list (spec_deps course_content (\<lambda>u i. False)) [Map.empty] anjali
               ''course-block'')) =
     [GetCourseBlocks ''anjali'' ''course-block''
        [AccessTransformer, BlocksAPITransformer [] [] (Some 0) (Some 3)]]
   \<and> (\<exists>e'. snd (snd (CourseBlocks_list (spec_deps course_content (\<lambda>u i. False)) [Map.empty]
                        anjali ''course-block'')) = Inl e')"
proof -
  let ?d = "spec_deps course_content (\<lambda>u i. False)"
  let ?ts = "[AccessTransformer, BlocksAPITransformer [] [] (Some 0) (Some 3)]"
  have failed: "get_course_blocks ?d ''anjali'' ''course-block'' ?ts =
      Inl (ForbiddenError ''course-block'')"
    by (simp add: spec_deps_sel closed_course)
  let ?f = "request_form ?d [Map.empty] anjali ''course-block''"
  have v: "is_valid ?f" by (simp add: plain_valid)
  have u: "cd_user (cleaned_data ?f) = Some ''anjali''" by (simp add: request_form_plain)
  have k: "cd_usage_key (cleaned_data ?f) = Some ''course-block''"
    by (simp add: request_form_plain)
  have "\<exists>rest. fst (snd (CourseBlocks_list ?d [Map.empty] anjali ''course-block'')) =
      GetCourseBlocks ''anjali'' ''course-block'' ?ts # rest"
    using list_trace[OF v u k] by (auto simp: plain_transformer spec_deps_sel)
  then have called: "GetCourseBlocks ''anjali'' ''course-block'' ?ts \<in>
      set (fst (snd (CourseBlocks_list ?d [Map.empty] anjali ''course-block'')))"
    by auto
  from failed_retrieval_never_serializes[OF failed called] show ?thesis .
qed






text \<open>
  C10. The view works on a copy: every parameter object that existed before the call, the
  request's own \<open>GET\<close> among them, is the same after it; only the new copy holds the
  added \<open>usage_key\<close>.
\<close>

theorem request_GET_is_not_mutated:
  assumes "GET rq < length s"
  shows "take (length s) (fst (CourseBlocks_list d s rq k)) = s
       \<and> fst (CourseBlocks_list d s rq k) ! GET rq = s ! GET rq"
proof -
  let ?s2 = "(s @ [s ! GET rq])[length s := qd_update (s ! GET rq) ''usage_key'' k]"
  have "fst (CourseBlocks_list d s rq k) = ?s2"
    by (simp add: CourseBlocks_list_def copy_def update_def Let_def transform_blocks_store)
  moreover have "take (length s) ?s2 = s" by simp
  moreover have "?s2 ! GET rq = s ! GET rq" using assms by (simp add: nth_append)
  ultimately show ?thesis by simp
qed

theorem request_GET_is_not_mutated_witness:
  "fst (CourseBlocks_list course_deps [[''depth'' \<mapsto> [''all'']]] anjali ''course-block'') ! 0 =
     [''depth'' \<mapsto> [''all'']]"
  using request_GET_is_not_mutated[of anjali "[[''depth'' \<mapsto> [''all'']]]" course_deps
          "''course-block''"]
  by (simp add: anjali_def)

section \<open>Properties of the transformers\<close>

subsection \<open>Pruning, the depth truncation and the navigation bundles\<close>


lemma blocks_prune:
  "blocks (prune keep g) =
     map (\<lambda>(i, b). (i, b\<lparr>b_children := filter keep (b_children b)\<rparr>))
       (filter (\<lambda>(i, b). keep i) (blocks g))"
  by (simp add: prune_def)






lemma blocks_nav_transform:
  "\<exists>f. blocks (nav_transform nav g) = map (\<lambda>(i, b). (i, f i b)) (blocks g) \<and>
       (\<forall>i b. b_type (f i b) = b_type b \<and> b_display_name (f i b) = b_display_name b \<and>
              b_children (f i b) = b_children b \<and> b_block_counts (f i b) = b_block_counts b)"
proof (cases nav)
  case None
  have "blocks g = map (\<lambda>(i, b). (i, (\<lambda>i b. b) i b)) (blocks g)"
    by (induction "blocks g") auto
  with None show ?thesis
    by (intro exI[of _ "\<lambda>i b. b"]) (simp add: nav_transform_def)
next
  case (Some n)
  let ?f = "\<lambda>i b. if at_level (blocks g) (root g) n i
                  then b\<lparr>b_descendants := Some (descendants (blocks g) i)\<rparr> else b"
  from Some show ?thesis
    by (intro exI[of _ ?f]) (simp add: nav_transform_def)
qed



lemma in_keys_iff: "i \<in> set (keys g) \<longleftrightarrow> map_of (blocks g) i \<noteq> None"
  by (simp add: keys_def map_of_eq_None_iff)

subsection \<open>The count aggregator\<close>






lemma map_of_annotate:
  assumes "annotate n all types bs = Some bs'"
  shows "map_of bs' i =
           (case map_of bs i of
              None \<Rightarrow> None
            | Some b \<Rightarrow> Some (b\<lparr>b_block_counts := counts_for n all types i\<rparr>))
         \<and> (map_of bs i \<noteq> None \<longrightarrow> counts_for n all types i \<noteq> None)"
  using assms
proof (induction bs arbitrary: bs')
  case Nil
  then show ?case by simp
next
  case (Cons x bs)
  obtain j b where x: "x = (j, b)" by (cases x)
  from Cons.prems x obtain cs r where cs: "counts_for n all types j = Some cs"
    and r: "annotate n all types bs = Some r"
    and bs': "bs' = (j, b\<lparr>b_block_counts := Some cs\<rparr>) # r"
    by (auto split: option.splits)
  from Cons.IH[OF r] x cs bs' show ?case by auto
qed






subsection \<open>The claims about the counts\<close>


subsection \<open>Levels below the root\<close>

lemma ids_within_mono: "m \<le> n \<Longrightarrow> set (ids_within bs r m) \<subseteq> set (ids_within bs r n)"
proof (induction n)
  case 0
  then show ?case by simp
next
  case (Suc n)
  show ?case
  proof (cases "m = Suc n")
    case True
    then show ?thesis by simp
  next
    case False
    with Suc.prems have "m \<le> n" by simp
    from Suc.IH[OF this] show ?thesis by auto
  qed
qed

subsection \<open>Dangling child ids\<close>



lemma annotate_shape:
  assumes "annotate n all types bs = Some bs'"
  shows "map fst bs' = map fst bs \<and>
         (\<forall>i b'. (i, b') \<in> set bs' \<longrightarrow> (\<exists>b. (i, b) \<in> set bs \<and> b_children b' = b_children b))"
  using assms
proof (induction bs arbitrary: bs')
  case Nil
  then show ?case by simp
next
  case (Cons x bs)
  obtain j b where x: "x = (j, b)" by (cases x)
  from Cons.prems x obtain cs r where r: "annotate n all types bs = Some r"
    and bs': "bs' = (j, b\<lparr>b_block_counts := Some cs\<rparr>) # r"
    by (auto split: option.splits)
  from Cons.IH[OF r] x bs' show ?case by auto
qed


lemma counted_shape:
  assumes "count_transform types g = Inr gc"
  shows "root gc = root g" and "children_of (blocks gc) j = children_of (blocks g) j"
proof -
  from assms have ann:
    "annotate (Suc (length (blocks g))) (blocks g) types (blocks g) = Some (blocks gc)"
    by (auto simp: count_transform_def split: option.splits)
  from assms obtain bs where "gc = g\<lparr>blocks := bs\<rparr>"
    by (auto simp: count_transform_def split: option.splits)
  then show "root gc = root g" by simp
  from map_of_annotate[OF ann, of j]
  show "children_of (blocks gc) j = children_of (blocks g) j"
    by (auto simp: children_of_def split: option.splits)
qed


lemma root_depth_transform: "root (depth_transform depth g) = root g"
  by (cases depth) (simp_all add: depth_transform_def root_prune)






section \<open>Properties of the endpoint over the specified collaborators\<close>

subsection \<open>The resolved request\<close>

lemma spec_request_form:
  "request_form (spec_deps content acc) s rq k =
     clean_spec ((bound_data (s ! GET rq))\<lparr>fd_usage_key := Some k\<rparr>) (user rq)"
  by (simp add: request_form_eq BlockListGetForm_def bound_data_update spec_deps_sel)

lemma clean_spec_errors:
  "errors (clean_spec fd u) =
     fst (clean_usage_key (fd_usage_key fd)) @ fst (clean_depth (fd_depth fd)) @
     fst (clean_nav_depth (fd_nav_depth fd)) @ fst (clean_return_type (fd_return_type fd))"
  by (simp add: clean_spec_def split: prod.splits)

lemma clean_spec_cleaned:
  "cleaned_data (clean_spec fd u) =
     \<lparr> cd_user = Some u,
       cd_usage_key = snd (clean_usage_key (fd_usage_key fd)),
       cd_requested_fields = Some (clean_requested_fields (fd_requested_fields fd)),
       cd_return_type = snd (clean_return_type (fd_return_type fd)),
       cd_block_counts = Some (tokens (fd_block_counts fd)),
       cd_student_view_data = Some (tokens (fd_student_view_data fd)),
       cd_depth = snd (clean_depth (fd_depth fd)),
       cd_nav_depth = snd (clean_nav_depth (fd_nav_depth fd)) \<rparr>"
  by (simp add: clean_spec_def split: prod.splits)

lemma clean_usage_key_ok:
  "fst (clean_usage_key (Some k)) = [] \<Longrightarrow> snd (clean_usage_key (Some k)) = Some k"
  by (simp add: clean_usage_key_def split: if_splits)

lemma clean_return_type_ok:
  assumes "fst (clean_return_type v) = []"
  shows "snd (clean_return_type v) = Some (if v = Some ''list'' then ''list'' else ''dict'')
       \<and> (v = Some ''list'' \<or> v \<in> {None, Some [], Some ''dict''})"
  using assms by (auto simp: clean_return_type_def split: option.splits if_splits)

lemma clean_depth_default:
  "v \<in> {None, Some [], Some ''0''} \<Longrightarrow> clean_depth v = ([], Some (Some 0))"
  by (auto simp: clean_depth_def parse_nat_def digit_val_def)

lemma spec_valid_keys:
  assumes "is_valid (request_form (spec_deps content acc) s rq k)"
  shows "cd_user (cleaned_data (request_form (spec_deps content acc) s rq k)) = Some (user rq)"
    and "cd_usage_key (cleaned_data (request_form (spec_deps content acc) s rq k)) = Some k"
proof -
  let ?fd = "(bound_data (s ! GET rq))\<lparr>fd_usage_key := Some k\<rparr>"
  have f: "request_form (spec_deps content acc) s rq k = clean_spec ?fd (user rq)"
    by (simp add: spec_request_form)
  from assms have "fst (clean_usage_key (Some k)) = []"
    by (simp add: f is_valid_def clean_spec_errors)
  from clean_usage_key_ok[OF this]
  show "cd_user (cleaned_data (request_form (spec_deps content acc) s rq k)) = Some (user rq)"
    and "cd_usage_key (cleaned_data (request_form (spec_deps content acc) s rq k)) = Some k"
    by (simp_all add: f clean_spec_cleaned)
qed

text \<open>
  The run of the endpoint on a valid request whose retrieval succeeded: the calls it makes
  and the response it returns.
\<close>

lemma spec_answer:
  assumes valid: "is_valid (request_form (spec_deps content acc) s rq k)"
    and got: "get_course_blocks_spec content acc (user rq) k
                [AccessTransformer,
                 blocks_api_transformer
                   (cleaned_data (request_form (spec_deps content acc) s rq k))] = Inr g'"
  defines "rf \<equiv> clean_requested_fields (qd_getlist (s ! GET rq) ''requested_fields'')"
  defines "rt \<equiv> qd_get (s ! GET rq) ''return_type''"
  shows "snd (snd (CourseBlocks_list (spec_deps content acc) s rq k)) =
           Inr (Response
                  (if rt = Some ''list''
                   then ListData
                          (map (\<lambda>i. to_record rf i (the (map_of (blocks g') i)))
                             (preorder (blocks g') [] [root g']))
                   else DictData (root g')
                          (map (\<lambda>(i, b). (i, to_record rf i b)) (blocks g'))))"
    and "rt = Some ''list'' \<or> rt \<in> {None, Some [], Some ''dict''}"
proof -
  let ?d = "spec_deps content acc"
  let ?f = "request_form ?d s rq k"
  let ?fd = "(bound_data (s ! GET rq))\<lparr>fd_usage_key := Some k\<rparr>"
  have f: "?f = clean_spec ?fd (user rq)" by (simp add: spec_request_form)
  from valid have errs: "fst (clean_usage_key (Some k)) = []"
    "fst (clean_return_type (fd_return_type ?fd)) = []"
    by (simp_all add: f is_valid_def clean_spec_errors)
  have rt_bound: "fd_return_type ?fd = rt" by (simp add: rt_def bound_data_def)
  have rf_bound: "clean_requested_fields (fd_requested_fields ?fd) = rf"
    by (simp add: rf_def bound_data_def)
  note rt_ok = clean_return_type_ok[OF errs(2), unfolded rt_bound]
  from rt_ok show "rt = Some ''list'' \<or> rt \<in> {None, Some [], Some ''dict''}" by blast
  have cd_u: "cd_user (cleaned_data ?f) = Some (user rq)"
    and cd_k: "cd_usage_key (cleaned_data ?f) = Some k"
    and cd_rf: "cd_requested_fields (cleaned_data ?f) = Some rf"
    and cd_rt: "cd_return_type (cleaned_data ?f) =
                  Some (if rt = Some ''list'' then ''list'' else ''dict'')"
    using clean_usage_key_ok[OF errs(1)] rt_ok rt_bound rf_bound
    by (simp_all add: f clean_spec_cleaned)
  let ?s2 = "(s @ [s ! GET rq])[length s := qd_update (s ! GET rq) ''usage_key'' k]"
  have "snd (snd (CourseBlocks_list ?d s rq k)) =
        snd (snd (transform_blocks ?d ?s2 rq (cleaned_data ?f)))"
    using list_valid[OF valid] by simp
  also have "\<dots> = snd (snd (serialize ?d ?s2
        [GetCourseBlocks (user rq) k
           [AccessTransformer, blocks_api_transformer (cleaned_data ?f)]]
        rq (cleaned_data ?f) g'))"
    using got cd_u cd_k by (simp add: transform_blocks_def spec_deps_sel)
  also have "\<dots> = Inr (Response
                  (if rt = Some ''list''
                   then ListData
                          (map (\<lambda>i. to_record rf i (the (map_of (blocks g') i)))
                             (preorder (blocks g') [] [root g']))
                   else DictData (root g')
                          (map (\<lambda>(i, b). (i, to_record rf i b)) (blocks g'))))"
    using cd_rf cd_rt
    by (simp add: serialize_def spec_deps_sel BlockDictSerializer_spec_def
                  BlockSerializer_spec_def)
  finally show "snd (snd (CourseBlocks_list ?d s rq k)) =
           Inr (Response
                  (if rt = Some ''list''
                   then ListData
                          (map (\<lambda>i. to_record rf i (the (map_of (blocks g') i)))
                             (preorder (blocks g') [] [root g']))
                   else DictData (root g')
                          (map (\<lambda>(i, b). (i, to_record rf i b)) (blocks g'))))" .
qed

subsection \<open>The root and the keys along the pipeline\<close>

lemma keys_prune_eq: "keys (prune keep g) = filter keep (keys g)"
proof -
  have "map fst (map (\<lambda>(i, b). (i, f b)) (filter (\<lambda>(i, b). keep i) bs)) =
        filter keep (map fst bs)" for bs :: "(string \<times> block) list" and f
    by (induction bs) auto
  then show ?thesis by (simp only: keys_def blocks_prune)
qed

lemma root_within: "r \<in> set (ids_within bs r n)"
  using ids_within_mono[of 0 n bs r] by auto

lemma root_restrict_reachable: "root (restrict_reachable g) = root g"
  by (simp add: restrict_reachable_def root_prune)

lemma keys_restrict_reachable:
  "distinct (keys g) \<Longrightarrow> distinct (keys (restrict_reachable g))"
  "root g \<in> set (keys g) \<Longrightarrow> root g \<in> set (keys (restrict_reachable g))"
  by (simp_all add: restrict_reachable_def keys_prune_eq root_within in_keys_iff)

lemma access_transform_shape:
  assumes "access_transform acc u g = Inr ga"
  shows "root ga = root g"
    and "distinct (keys g) \<Longrightarrow> distinct (keys ga)"
    and "root g \<in> set (keys g) \<Longrightarrow> root ga \<in> set (keys ga)"
proof -
  from assms have ok: "acc u (root g)" and ga: "ga = restrict_reachable (prune (acc u) g)"
    by (auto simp: access_transform_def split: if_splits)
  show "root ga = root g" by (simp add: ga root_restrict_reachable root_prune)
  show "distinct (keys ga)" if "distinct (keys g)"
    using that by (simp add: ga keys_restrict_reachable(1) keys_prune_eq)
  show "root ga \<in> set (keys ga)" if "root g \<in> set (keys g)"
  proof -
    from that ok have "root (prune (acc u) g) \<in> set (keys (prune (acc u) g))"
      by (simp add: keys_prune_eq root_prune)
    from keys_restrict_reachable(2)[OF this] show ?thesis
      by (simp add: ga root_restrict_reachable)
  qed
qed

lemma keys_counted:
  assumes "count_transform types g = Inr gc"
  shows "keys gc = keys g"
proof -
  from assms have
    "annotate (Suc (length (blocks g))) (blocks g) types (blocks g) = Some (blocks gc)"
    by (auto simp: count_transform_def split: option.splits)
  from annotate_shape[OF this] show ?thesis by (simp add: keys_def)
qed

lemma root_nav_transform: "root (nav_transform nav g) = root g"
  by (cases nav) (simp_all add: nav_transform_def)

lemma root_blocks_api_transform:
  assumes "blocks_api_transform bc svd depth nav g = Inr g'"
  shows "root g' = root g"
proof -
  from assms obtain gc where gc: "count_transform bc g = Inr gc"
    and g': "g' = nav_transform nav (depth_transform depth gc)"
    by (auto simp: blocks_api_transform_def split: sum.splits)
  show ?thesis
    by (simp add: g' root_nav_transform root_depth_transform counted_shape(1)[OF gc])
qed

lemma root_run_pipeline:
  "run_pipeline acc u ts g = Inr g' \<Longrightarrow> root g' = root g"
proof (induction ts arbitrary: g)
  case Nil
  then show ?case by simp
next
  case (Cons t ts)
  from Cons.prems obtain g1 where t: "transform acc u t g = Inr g1"
    and rest: "run_pipeline acc u ts g1 = Inr g'"
    by (auto split: sum.splits)
  have "root g1 = root g"
  proof (cases t)
    case AccessTransformer
    with t show ?thesis by (simp add: access_transform_shape(1))
  next
    case (BlocksAPITransformer bc svd depth nav)
    with t show ?thesis by (simp add: root_blocks_api_transform)
  qed
  with Cons.IH[OF rest] show ?case by simp
qed

lemma root_get_course_blocks_spec:
  "get_course_blocks_spec content acc u k ts = Inr g' \<Longrightarrow> root g' = k"
  by (auto simp: get_course_blocks_spec_def root_restrict_reachable
           dest!: root_run_pipeline split: option.splits)

subsection \<open>The pre-order walk of the list serializer\<close>




subsection \<open>The claim about the children lists\<close>





text \<open>
  A child id with no block in the content arena is no block of the graph built for the
  request, and no record lists it.
\<close>

lemma child_with_no_block_is_dropped:
  "snd (snd (CourseBlocks_list (spec_deps [(''r'', blk ''course'' [''ghost''])] open_access)
               [[''requested_fields'' \<mapsto> [''children''], ''depth'' \<mapsto> [''all'']]] anjali ''r'')) =
   Inr (Response (DictData ''r''
          [(''r'', \<lparr> r_id = ''r'', r_type = ''course'', r_display_name = ''course'',
                    r_children = Some [], r_block_counts = None \<rparr>)]))"
  by code_simp

subsection \<open>The claim about the response shape\<close>

text \<open>
  C7. The endpoint answers every valid request whose retrieval succeeded with structure
  \<open>g'\<close>, and \<open>return_type\<close> selects the shape of the answer: for \<open>list\<close> it is the sequence
  of the records of \<open>g'\<close> in pre-order from the root; otherwise \<open>return_type\<close> is \<open>dict\<close>,
  empty or absent, and the answer is the mapping with the root id of the request and one
  record for every block of \<open>g'\<close>.
\<close>

theorem response_shape_follows_return_type:
  assumes "is_valid (request_form (spec_deps content acc) s rq k)"
    and "get_course_blocks_spec content acc (user rq) k
           [AccessTransformer,
            blocks_api_transformer
              (cleaned_data (request_form (spec_deps content acc) s rq k))] = Inr g'"
  shows "snd (snd (CourseBlocks_list (spec_deps content acc) s rq k)) =
           Inr (Response
                  (if qd_get (s ! GET rq) ''return_type'' = Some ''list''
                   then ListData
                          (map (\<lambda>i. to_record
                                       (clean_requested_fields
                                          (qd_getlist (s ! GET rq) ''requested_fields''))
                                       i (the (map_of (blocks g') i)))
                             (preorder (blocks g') [] [k]))
                   else DictData k
                          (map (\<lambda>(i, b). (i, to_record
                                       (clean_requested_fields
                                          (qd_getlist (s ! GET rq) ''requested_fields''))
                                       i b))
                             (blocks g'))))
       \<and> (qd_get (s ! GET rq) ''return_type'' = Some ''list'' \<or>
          qd_get (s ! GET rq) ''return_type'' \<in> {None, Some [], Some ''dict''})"
  using spec_answer[OF assms] root_get_course_blocks_spec[OF assms(2)] by simp

theorem response_shape_follows_return_type_witness:
  "snd (snd (CourseBlocks_list course_deps
               [[''return_type'' \<mapsto> [''list''], ''depth'' \<mapsto> [''all'']]] anjali
               ''course-block'')) =
     Inr (Response (ListData
            [\<lparr> r_id = ''course-block'', r_type = ''course'', r_display_name = ''course'',
               r_children = None, r_block_counts = None \<rparr>,
             \<lparr> r_id = ''chapter1'', r_type = ''chapter'', r_display_name = ''chapter'',
               r_children = None, r_block_counts = None \<rparr>,
             \<lparr> r_id = ''seq1'', r_type = ''video'', r_display_name = ''video'',
               r_children = None, r_block_counts = None \<rparr>,
             \<lparr> r_id = ''seq2'', r_type = ''problem'', r_display_name = ''problem'',
               r_children = None, r_block_counts = None \<rparr>]))
   \<and> snd (snd (CourseBlocks_list course_deps [Map.empty] anjali ''course-block'')) =
     Inr (Response (DictData ''course-block''
            [(''course-block'',
              \<lparr> r_id = ''course-block'', r_type = ''course'', r_display_name = ''course'',
                r_children = None, r_block_counts = None \<rparr>)]))"
proof -
  let ?d = "spec_deps course_content open_access"
  let ?s = "[[''return_type'' \<mapsto> [''list''], ''depth'' \<mapsto> [''all'']]]"
  let ?g = "\<lparr> root = ''course-block'',
              blocks = map (\<lambda>(i, b). (i, b\<lparr>b_block_counts := Some []\<rparr>)) course_content \<rparr>"
  have v: "is_valid (request_form ?d ?s anjali ''course-block'')" by code_simp
  have g: "get_course_blocks_spec course_content open_access (user anjali) ''course-block''
             [AccessTransformer,
              blocks_api_transformer (cleaned_data (request_form ?d ?s anjali ''course-block''))]
           = Inr ?g"
    by code_simp
  have rt: "qd_get (?s ! GET anjali) ''return_type'' = Some ''list''" by code_simp
  have recs: "map (\<lambda>i. to_record
                          (clean_requested_fields (qd_getlist (?s ! GET anjali) ''requested_fields''))
                          i (the (map_of (blocks ?g) i)))
                (preorder (blocks ?g) [] [''course-block'']) =
      [\<lparr> r_id = ''course-block'', r_type = ''course'', r_display_name = ''course'',
         r_children = None, r_block_counts = None \<rparr>,
       \<lparr> r_id = ''chapter1'', r_type = ''chapter'', r_display_name = ''chapter'',
         r_children = None, r_block_counts = None \<rparr>,
       \<lparr> r_id = ''seq1'', r_type = ''video'', r_display_name = ''video'',
         r_children = None, r_block_counts = None \<rparr>,
       \<lparr> r_id = ''seq2'', r_type = ''problem'', r_display_name = ''problem'',
         r_children = None, r_block_counts = None \<rparr>]"
    by code_simp
  let ?plain = "[Map.empty] :: store"
  let ?only = "\<lparr> root = ''course-block'',
               blocks = [(''course-block'',
                          (blk ''course'' [])\<lparr>b_block_counts := Some []\<rparr>)] \<rparr>"
  have v0: "is_valid (request_form ?d ?plain anjali ''course-block'')" by code_simp
  have g0: "get_course_blocks_spec course_content open_access (user anjali) ''course-block''
             [AccessTransformer,
              blocks_api_transformer (cleaned_data (request_form ?d ?plain anjali ''course-block''))]
           = Inr ?only"
    by code_simp
  have rt0: "qd_get (?plain ! GET anjali) ''return_type'' = None" by code_simp
  have recs0: "map (\<lambda>(i, b). (i, to_record
                          (clean_requested_fields (qd_getlist (?plain ! GET anjali) ''requested_fields''))
                          i b))
                 (blocks ?only) =
      [(''course-block'',
        \<lparr> r_id = ''course-block'', r_type = ''course'', r_display_name = ''course'',
          r_children = None, r_block_counts = None \<rparr>)]"
    by code_simp
  from response_shape_follows_return_type[OF v g] rt recs
  have "snd (snd (CourseBlocks_list ?d ?s anjali ''course-block'')) =
     Inr (Response (ListData
            [\<lparr> r_id = ''course-block'', r_type = ''course'', r_display_name = ''course'',
               r_children = None, r_block_counts = None \<rparr>,
             \<lparr> r_id = ''chapter1'', r_type = ''chapter'', r_display_name = ''chapter'',
               r_children = None, r_block_counts = None \<rparr>,
             \<lparr> r_id = ''seq1'', r_type = ''video'', r_display_name = ''video'',
               r_children = None, r_block_counts = None \<rparr>,
             \<lparr> r_id = ''seq2'', r_type = ''problem'', r_display_name = ''problem'',
               r_children = None, r_block_counts = None \<rparr>]))"
    by (simp only: if_True refl)
  moreover from response_shape_follows_return_type[OF v0 g0] rt0 recs0
  have "snd (snd (CourseBlocks_list ?d ?plain anjali ''course-block'')) =
     Inr (Response (DictData ''course-block''
            [(''course-block'',
              \<lparr> r_id = ''course-block'', r_type = ''course'', r_display_name = ''course'',
                r_children = None, r_block_counts = None \<rparr>)]))"
    by (simp only: option.distinct if_False)
  ultimately show ?thesis unfolding course_deps_def by blast
qed

subsection \<open>The claim about depth 0\<close>

lemma single_entry:
  assumes "distinct (map fst bs)" and "k \<in> set (map fst bs)"
  shows "\<exists>b. filter (\<lambda>(i, b). i = k) bs = [(k, b)]"
  using assms
proof (induction bs)
  case Nil
  then show ?case by simp
next
  case (Cons x bs)
  obtain j b where x: "x = (j, b)" by (cases x)
  show ?case
  proof (cases "j = k")
    case True
    with Cons.prems x have "k \<notin> fst ` set bs" by auto
    then have "filter (\<lambda>(i, b). i = k) bs = []"
      by (force simp: filter_empty_conv)
    with True x show ?thesis by simp
  next
    case False
    with Cons x show ?thesis by auto
  qed
qed

lemma preorder_skip:
  "\<forall>x \<in> set stack. x \<in> set visited \<or> map_of bs x = None \<Longrightarrow> preorder bs visited stack = []"
  by (induction stack) auto

lemma depth_zero_blocks:
  assumes "distinct (keys g)" and "root g \<in> set (keys g)"
  shows "\<exists>b. blocks (nav_transform nav (depth_transform (Some 0) g)) = [(root g, b)] \<and>
             set (b_children b) \<subseteq> {root g}"
proof -
  let ?gd = "depth_transform (Some 0) g"
  have eq: "(\<lambda>(i, b). i \<in> set (ids_within (blocks g) (root g) 0)) = (\<lambda>(i, b). i = root g)"
    by (simp add: fun_eq_iff)
  from single_entry[OF assms[unfolded keys_def]] obtain b0 where
    "filter (\<lambda>(i, b). i = root g) (blocks g) = [(root g, b0)]" by blast
  then have gd: "blocks ?gd =
      [(root g, b0\<lparr>b_children := filter (\<lambda>c. c = root g) (b_children b0)\<rparr>)]"
    by (simp add: depth_transform_def blocks_prune eq)
  from blocks_nav_transform[of nav ?gd] obtain f where
    f: "blocks (nav_transform nav ?gd) = map (\<lambda>(i, b). (i, f i b)) (blocks ?gd)"
    and same: "\<forall>i b. b_children (f i b) = b_children b"
    by blast
  from f gd same show ?thesis by auto
qed

lemma depth_zero_structure:
  assumes "get_course_blocks_spec content acc u k
             [AccessTransformer, BlocksAPITransformer bc svd (Some 0) nav] = Inr g'"
    and "distinct (map fst content)"
  shows "root g' = k \<and> (\<exists>b. blocks g' = [(k, b)] \<and> set (b_children b) \<subseteq> {k})"
proof -
  let ?g0 = "restrict_reachable \<lparr>root = k, blocks = content\<rparr>"
  from assms(1) obtain b0 where b0: "map_of content k = Some b0"
    and run: "run_pipeline acc u [AccessTransformer, BlocksAPITransformer bc svd (Some 0) nav] ?g0
              = Inr g'"
    by (auto simp: get_course_blocks_spec_def split: option.splits)
  from run obtain ga where ga: "access_transform acc u ?g0 = Inr ga"
    and api: "blocks_api_transform bc svd (Some 0) nav ga = Inr g'"
    by (auto split: sum.splits)
  from api obtain gc where gc: "count_transform bc ga = Inr gc"
    and g': "g' = nav_transform nav (depth_transform (Some 0) gc)"
    by (auto simp: blocks_api_transform_def split: sum.splits)
  from b0 have "k \<in> set (map fst content)"
    by (metis map_of_eq_None_iff option.distinct(1) set_map)
  then have in0: "root \<lparr>root = k, blocks = content\<rparr> \<in> set (keys \<lparr>root = k, blocks = content\<rparr>)"
    by (simp add: keys_def)
  have d0: "distinct (keys \<lparr>root = k, blocks = content\<rparr>)"
    using assms(2) by (simp add: keys_def)
  have r0: "root ?g0 = k" by (simp add: root_restrict_reachable)
  from keys_restrict_reachable(2)[OF in0] r0 have "root ?g0 \<in> set (keys ?g0)" by simp
  from access_transform_shape[OF ga] this keys_restrict_reachable(1)[OF d0] r0
  have a: "root ga = k" "distinct (keys ga)" "root ga \<in> set (keys ga)" by simp_all
  from a keys_counted[OF gc] counted_shape(1)[OF gc]
  have c: "root gc = k" "distinct (keys gc)" "root gc \<in> set (keys gc)" by simp_all
  from depth_zero_blocks[OF c(2,3), of nav] c(1) g' show ?thesis
    by (simp add: root_nav_transform root_depth_transform)
qed

text \<open>
  C8. A valid request whose \<open>depth\<close> parameter is absent, empty or 0 is resolved to depth
  0: the endpoint calls \<open>get_course_blocks\<close> with a \<open>BlocksAPITransformer\<close> of depth 0. When
  that retrieval succeeds, over a content arena with one block per id, and the request does
  not ask for \<open>children\<close>, the endpoint answers with exactly one record, the root's: the
  list of that one record in list mode, the mapping with that one entry in dict mode.
\<close>

theorem depth_zero_returns_only_root:
  assumes "qd_get (s ! GET rq) ''depth'' \<in> {None, Some [], Some ''0''}"
    and "distinct (map fst content)"
    and "is_valid (request_form (spec_deps content acc) s rq k)"
  shows "(\<exists>bc svd nav rest.
            fst (snd (CourseBlocks_list (spec_deps content acc) s rq k)) =
              GetCourseBlocks (user rq) k
                [AccessTransformer, BlocksAPITransformer bc svd (Some 0) nav] # rest)
       \<and> (\<forall>g'. get_course_blocks_spec content acc (user rq) k
                  [AccessTransformer,
                   blocks_api_transformer
                     (cleaned_data (request_form (spec_deps content acc) s rq k))] = Inr g' \<longrightarrow>
              ''children'' \<notin> set (clean_requested_fields
                                     (qd_getlist (s ! GET rq) ''requested_fields'')) \<longrightarrow>
              (\<exists>r. r_id r = k \<and> r_children r = None \<and>
                   snd (snd (CourseBlocks_list (spec_deps content acc) s rq k)) =
                     Inr (Response
                            (if qd_get (s ! GET rq) ''return_type'' = Some ''list''
                             then ListData [r]
                             else DictData k [(k, r)]))))"
proof -
  let ?d = "spec_deps content acc"
  let ?f = "request_form ?d s rq k"
  let ?fd = "(bound_data (s ! GET rq))\<lparr>fd_usage_key := Some k\<rparr>"
  let ?rf = "clean_requested_fields (qd_getlist (s ! GET rq) ''requested_fields'')"
  have "fd_depth ?fd = qd_get (s ! GET rq) ''depth''" by (simp add: bound_data_def)
  with assms(1) have "clean_depth (fd_depth ?fd) = ([], Some (Some 0))"
    using clean_depth_default by simp
  then have "cd_depth (cleaned_data ?f) = Some (Some 0)"
    by (simp add: spec_request_form clean_spec_cleaned)
  then obtain bc svd nav where
    api: "blocks_api_transformer (cleaned_data ?f) = BlocksAPITransformer bc svd (Some 0) nav"
    by (simp add: blocks_api_transformer_def dict_get_def)
  from list_trace[OF assms(3) spec_valid_keys[OF assms(3)]] api
  have called: "\<exists>bc svd nav rest.
      fst (snd (CourseBlocks_list ?d s rq k)) =
        GetCourseBlocks (user rq) k
          [AccessTransformer, BlocksAPITransformer bc svd (Some 0) nav] # rest"
    by (auto simp: spec_deps_sel)
  have answer: "\<exists>r. r_id r = k \<and> r_children r = None \<and>
        snd (snd (CourseBlocks_list ?d s rq k)) =
          Inr (Response (if qd_get (s ! GET rq) ''return_type'' = Some ''list''
                         then ListData [r] else DictData k [(k, r)]))"
    if got: "get_course_blocks_spec content acc (user rq) k
               [AccessTransformer, blocks_api_transformer (cleaned_data ?f)] = Inr g'"
      and nokids: "''children'' \<notin> set ?rf" for g'
  proof -
    from got api have "get_course_blocks_spec content acc (user rq) k
        [AccessTransformer, BlocksAPITransformer bc svd (Some 0) nav] = Inr g'" by simp
    from depth_zero_structure[OF this assms(2)] obtain b where
      root: "root g' = k" and bl: "blocks g' = [(k, b)]" and kids: "set (b_children b) \<subseteq> {k}"
      by blast
    have walk: "preorder (blocks g') [] [k] = [k]"
      using kids by (simp add: bl children_of_def preorder_skip subset_iff)
    from spec_answer(1)[OF assms(3) got] root bl walk nokids
    have "snd (snd (CourseBlocks_list ?d s rq k)) =
          Inr (Response (if qd_get (s ! GET rq) ''return_type'' = Some ''list''
                         then ListData [to_record ?rf k b]
                         else DictData k [(k, to_record ?rf k b)]))"
      by (simp del: preorder.simps)
    moreover have "r_id (to_record ?rf k b) = k" "r_children (to_record ?rf k b) = None"
      using nokids by (simp_all add: to_record_def)
    ultimately show ?thesis by blast
  qed
  from called answer show ?thesis by blast
qed

theorem depth_zero_returns_only_root_witness:
  "(\<exists>bc svd nav rest.
      fst (snd (CourseBlocks_list course_deps [[''return_type'' \<mapsto> [''list'']]] anjali
                  ''course-block'')) =
        GetCourseBlocks ''anjali'' ''course-block''
          [AccessTransformer, BlocksAPITransformer bc svd (Some 0) nav] # rest)
   \<and> (\<exists>r. r_id r = ''course-block'' \<and> r_children r = None \<and>
          snd (snd (CourseBlocks_list course_deps [[''return_type'' \<mapsto> [''list'']]] anjali
                      ''course-block'')) = Inr (Response (ListData [r])))"
proof -
  let ?d = "spec_deps course_content open_access"
  let ?s = "[[''return_type'' \<mapsto> [''list'']]]"
  let ?only = "\<lparr> root = ''course-block'',
                blocks = [(''course-block'',
                           (blk ''course'' [])\<lparr>b_block_counts := Some []\<rparr>)] \<rparr>"
  have d: "qd_get (?s ! GET anjali) ''depth'' \<in> {None, Some [], Some ''0''}" by code_simp
  have c: "distinct (map fst course_content)" by code_simp
  have v: "is_valid (request_form ?d ?s anjali ''course-block'')" by code_simp
  have g: "get_course_blocks_spec course_content open_access (user anjali) ''course-block''
             [AccessTransformer,
              blocks_api_transformer (cleaned_data (request_form ?d ?s anjali ''course-block''))]
           = Inr ?only"
    by code_simp
  have nk: "''children'' \<notin> set (clean_requested_fields
                                    (qd_getlist (?s ! GET anjali) ''requested_fields''))"
    by code_simp
  have rt: "qd_get (?s ! GET anjali) ''return_type'' = Some ''list''" by code_simp
  have u: "user anjali = ''anjali''" by (simp add: anjali_def)
  from depth_zero_returns_only_root[OF d c v] g nk rt u
  show ?thesis unfolding course_deps_def by simp
qed

subsection \<open>The walk of the count aggregator ends on an acyclic arena\<close>

text \<open>
  When the blocks can be ranked below the number of blocks so that every child that is a
  block ranks below its parent (the arena has no cycle), the bounded walk reaches a count
  for every id, and the count aggregator does not fail.
\<close>

lemma sum_counts_Some:
  "(\<And>c. c \<in> set cs \<Longrightarrow> f c \<noteq> None) \<Longrightarrow> sum_counts f cs \<noteq> None"
  by (induction cs) (auto split: option.splits)

lemma count_rec_ranked:
  assumes rank: "\<And>i b c. map_of bs i = Some b \<Longrightarrow> c \<in> set (b_children b) \<Longrightarrow>
                   map_of bs c \<noteq> None \<Longrightarrow> rank c < rank i"
  shows "map_of bs i = None \<or> rank i < n \<Longrightarrow> count_rec (Suc n) bs T i \<noteq> None"
proof (induction n arbitrary: i)
  case 0
  then show ?case by simp
next
  case (Suc n)
  show ?case
  proof (cases "map_of bs i")
    case None
    then show ?thesis by simp
  next
    case (Some b)
    with Suc.prems have ri: "rank i < Suc n" by simp
    have "count_rec (Suc n) bs T c \<noteq> None" if c: "c \<in> set (b_children b)" for c
    proof (rule Suc.IH)
      show "map_of bs c = None \<or> rank c < n"
        using rank[OF Some c] ri by (cases "map_of bs c") auto
    qed
    from sum_counts_Some[of "b_children b" "count_rec (Suc n) bs T", OF this]
    show ?thesis using Some by (auto split: option.splits)
  qed
qed

lemma counts_for_Some:
  "(\<And>T. count_rec n bs T i \<noteq> None) \<Longrightarrow> counts_for n bs types i \<noteq> None"
  by (induction types) (auto split: option.splits)

lemma annotate_Some:
  "(\<And>i. i \<in> fst ` set bs \<Longrightarrow> counts_for n all types i \<noteq> None) \<Longrightarrow>
   annotate n all types bs \<noteq> None"
proof (induction bs)
  case Nil
  then show ?case by simp
next
  case (Cons x bs)
  obtain j b where x: "x = (j, b)" by (cases x)
  from Cons.prems[of j] x have "counts_for n all types j \<noteq> None" by simp
  moreover from Cons have "annotate n all types bs \<noteq> None" by simp
  ultimately show ?case using x by (auto split: option.splits)
qed

lemma count_transform_succeeds:
  assumes "\<And>i b c. map_of (blocks g) i = Some b \<Longrightarrow> c \<in> set (b_children b) \<Longrightarrow>
             map_of (blocks g) c \<noteq> None \<Longrightarrow> rank c < rank i"
    and "\<And>i b. map_of (blocks g) i = Some b \<Longrightarrow> rank i < length (blocks g)"
  shows "\<exists>gc. count_transform types g = Inr gc"
proof -
  let ?n = "Suc (length (blocks g))"
  have "count_rec ?n (blocks g) T i \<noteq> None" for T i
  proof (rule count_rec_ranked[where rank = rank])
    show "rank c < rank i"
      if "map_of (blocks g) i = Some b" "c \<in> set (b_children b)" "map_of (blocks g) c \<noteq> None"
      for i b c using that by (rule assms(1))
    show "map_of (blocks g) i = None \<or> rank i < length (blocks g)"
      using assms(2) by (cases "map_of (blocks g) i") auto
  qed
  then have "counts_for ?n (blocks g) types i \<noteq> None" for i
    by (intro counts_for_Some)
  then have "annotate ?n (blocks g) types (blocks g) \<noteq> None"
    by (intro annotate_Some)
  then show ?thesis by (auto simp: count_transform_def split: option.splits)
qed

subsection \<open>The example of the specification\<close>

text \<open>
  The request \<open>block_counts=video,problem&depth=all&return_type=list\<close> on the course "yields
  a 4-record list where the \<open>course\<close> and \<open>chapter1\<close> records carry \<open>{video:1, problem:1}\<close>,
  \<open>seq1\<close> carries \<open>{video:1, problem:0}\<close>, \<open>seq2\<close> carries \<open>{video:0, problem:1}\<close>".
\<close>

lemma example_of_the_specification:
  "snd (snd (CourseBlocks_list course_deps
               [[''block_counts'' \<mapsto> [''video,problem''], ''depth'' \<mapsto> [''all''],
                 ''return_type'' \<mapsto> [''list'']]] anjali ''course-block'')) =
   Inr (Response (ListData
     [\<lparr> r_id = ''course-block'', r_type = ''course'', r_display_name = ''course'',
        r_children = None, r_block_counts = Some [(''video'', 1), (''problem'', 1)] \<rparr>,
      \<lparr> r_id = ''chapter1'', r_type = ''chapter'', r_display_name = ''chapter'',
        r_children = None, r_block_counts = Some [(''video'', 1), (''problem'', 1)] \<rparr>,
      \<lparr> r_id = ''seq1'', r_type = ''video'', r_display_name = ''video'',
        r_children = None, r_block_counts = Some [(''video'', 1), (''problem'', 0)] \<rparr>,
      \<lparr> r_id = ''seq2'', r_type = ''problem'', r_display_name = ''problem'',
        r_children = None, r_block_counts = Some [(''video'', 0), (''problem'', 1)] \<rparr>]))"
  by code_simp

text \<open>
  "\<open>depth="all"\<close> returns every access-permitted block reachable from root exactly once in
  list mode, with list order matching pre-order authored traversal": with the default
  \<open>nav_depth\<close> of 3 the block at level 4 is returned, and the block at level 3 bundles it.
\<close>

lemma depth_all_returns_every_level:
  "snd (snd (CourseBlocks_list (spec_deps deep_course open_access)
               [[''depth'' \<mapsto> [''all''], ''return_type'' \<mapsto> [''list'']]] anjali ''c'')) =
   Inr (Response (ListData
     [\<lparr> r_id = ''c'', r_type = ''course'', r_display_name = ''course'',
        r_children = None, r_block_counts = None \<rparr>,
      \<lparr> r_id = ''ch'', r_type = ''chapter'', r_display_name = ''chapter'',
        r_children = None, r_block_counts = None \<rparr>,
      \<lparr> r_id = ''sq'', r_type = ''sequential'', r_display_name = ''sequential'',
        r_children = None, r_block_counts = None \<rparr>,
      \<lparr> r_id = ''v'', r_type = ''vertical'', r_display_name = ''vertical'',
        r_children = None, r_block_counts = None \<rparr>,
      \<lparr> r_id = ''h'', r_type = ''html'', r_display_name = ''html'',
        r_children = None, r_block_counts = None \<rparr>]))"
  by code_simp

lemma nav_depth_bundles_descendants:
  "map_option (map (\<lambda>(i, b). (i, b_descendants b)) \<circ> blocks)
     (case get_course_blocks_spec deep_course open_access ''anjali'' ''c''
             [AccessTransformer, BlocksAPITransformer [] [] None (Some 3)] of
        Inl e \<Rightarrow> None | Inr g \<Rightarrow> Some g) =
   Some [(''c'', None), (''ch'', None), (''sq'', None), (''v'', Some [''h'']), (''h'', None)]"
  by code_simp

end
